theory Spec2Isabelle
  imports Main
begin

section \<open>JavaScript values\<close>

text \<open>
  The values that reach the two scripts: the result of \<open>JSON.parse\<close> or
  \<open>response.json()\<close> on the page side, and the structured clone carried by a
  \<open>message\<close> event on the content side. Strings are \<open>char list\<close> (8-bit characters),
  numbers are the integers that a JavaScript number holds exactly, an object is the list of
  its entries in the order \<open>Object.entries\<close> yields them.
\<close>

datatype jsval =
    JUndefined
  | JNull
  | JBool bool
  | JNum int
  | JStr string
  | JArr "jsval list"
  | JObj "(string \<times> jsval) list"

text \<open>Truthiness (\<open>!v\<close> is its negation): \<open>undefined\<close>, \<open>null\<close>, \<open>false\<close>, \<open>0\<close> and
  the empty string are falsy.\<close>

fun truthy :: "jsval \<Rightarrow> bool" where
  "truthy JUndefined = False"
| "truthy JNull = False"
| "truthy (JBool b) = b"
| "truthy (JNum n) = (n \<noteq> 0)"
| "truthy (JStr s) = (s \<noteq> [])"
| "truthy (JArr xs) = True"
| "truthy (JObj kvs) = True"

text \<open>\<open>typeof v === 'object'\<close> (true of \<open>null\<close> as well).\<close>

fun typeof_object :: "jsval \<Rightarrow> bool" where
  "typeof_object JNull = True"
| "typeof_object (JArr xs) = True"
| "typeof_object (JObj kvs) = True"
| "typeof_object v = False"

text \<open>Property read \<open>v.k\<close> on a value that is neither \<open>null\<close> nor \<open>undefined\<close> (every
  read in the scripts follows a truthiness test of \<open>v\<close>): an own entry of an object,
  \<open>undefined\<close> otherwise.\<close>

fun get_prop :: "jsval \<Rightarrow> string \<Rightarrow> jsval" where
  "get_prop (JObj kvs) k = (case map_of kvs k of Some v \<Rightarrow> v | None \<Rightarrow> JUndefined)"
| "get_prop v k = JUndefined"

text \<open>Decimal rendering of a number: this is \<open>String(n)\<close> for the integers a JavaScript
  number holds exactly and prints in full, those of magnitude at most \<open>2^53 - 1\<close>; larger
  integers and fractions are outside the model.\<close>

definition digit_char :: "nat \<Rightarrow> char" where
  "digit_char d = char_of (48 + d)"

fun digits :: "nat \<Rightarrow> string" where
  "digits n = (if n < 10 then [digit_char n] else digits (n div 10) @ [digit_char (n mod 10)])"

definition num_to_string :: "int \<Rightarrow> string" where
  "num_to_string n = (if n < 0 then CHR ''-'' # digits (nat (- n)) else digits (nat n))"

fun join_comma :: "string list \<Rightarrow> string" where
  "join_comma [] = []"
| "join_comma [s] = s"
| "join_comma (s # t # ss) = s @ '','' @ join_comma (t # ss)"

datatype error = TypeError

text \<open>
  \<open>String(v)\<close>. An array joins the strings of its elements with commas (\<open>null\<close> and
  \<open>undefined\<close> elements render empty). An object without an entry \<open>toString\<close> of its own
  renders as \<open>[object Object]\<close>; with one, the entry hides the inherited method and is no
  function (the values here hold none), the inherited \<open>valueOf\<close> returns the object itself,
  and the conversion throws a TypeError. An array carries its elements only.
\<close>

fun String_js :: "jsval \<Rightarrow> error + string"
  and String_elements :: "jsval list \<Rightarrow> error + string list"
where
  "String_js JUndefined = Inr ''undefined''"
| "String_js JNull = Inr ''null''"
| "String_js (JBool b) = Inr (if b then ''true'' else ''false'')"
| "String_js (JNum n) = Inr (num_to_string n)"
| "String_js (JStr s) = Inr s"
| "String_js (JArr xs) =
     (case String_elements xs of Inl err \<Rightarrow> Inl err | Inr ss \<Rightarrow> Inr (join_comma ss))"
| "String_js (JObj kvs) =
     (if map_of kvs ''toString'' \<noteq> None then Inl TypeError else Inr ''[object Object]'')"
| "String_elements [] = Inr []"
| "String_elements (x # xs) =
     (case (if x = JNull \<or> x = JUndefined then Inr [] else String_js x) of
        Inl err \<Rightarrow> Inl err
      | Inr s \<Rightarrow>
          (case String_elements xs of Inl err \<Rightarrow> Inl err | Inr ss \<Rightarrow> Inr (s # ss)))"

section \<open>Key patterns (inject.js, CONFIG.PATTERNS)\<close>

text \<open>
  Regular expressions as far as the two patterns need them. A literal character is
  compared without regard to ASCII case (flag \<open>i\<close>), \<open>Dot\<close> is \<open>.\<close> and matches every
  character but a line terminator.
\<close>

datatype rx =
    Null
  | Eps
  | Chr char
  | Dot
  | Alt rx rx
  | Seq rx rx
  | Star rx

definition ascii_lower :: "char \<Rightarrow> char" where
  "ascii_lower c =
     (let n = of_char c :: nat in if 65 \<le> n \<and> n \<le> 90 then char_of (n + 32) else c)"

definition line_terminator :: "char \<Rightarrow> bool" where
  "line_terminator c = (c = CHR 0x0A \<or> c = CHR 0x0D)"

fun nullable :: "rx \<Rightarrow> bool" where
  "nullable Null = False"
| "nullable Eps = True"
| "nullable (Chr c) = False"
| "nullable Dot = False"
| "nullable (Alt r s) = (nullable r \<or> nullable s)"
| "nullable (Seq r s) = (nullable r \<and> nullable s)"
| "nullable (Star r) = True"

fun deriv :: "char \<Rightarrow> rx \<Rightarrow> rx" where
  "deriv a Null = Null"
| "deriv a Eps = Null"
| "deriv a (Chr c) = (if ascii_lower a = ascii_lower c then Eps else Null)"
| "deriv a Dot = (if line_terminator a then Null else Eps)"
| "deriv a (Alt r s) = Alt (deriv a r) (deriv a s)"
| "deriv a (Seq r s) =
     (if nullable r then Alt (Seq (deriv a r) s) (deriv a s) else Seq (deriv a r) s)"
| "deriv a (Star r) = Seq (deriv a r) (Star r)"

text \<open>Some prefix of the string matches the expression.\<close>

fun match_prefix :: "rx \<Rightarrow> string \<Rightarrow> bool" where
  "match_prefix r [] = nullable r"
| "match_prefix r (c # cs) = (nullable r \<or> match_prefix (deriv c r) cs)"

text \<open>\<open>RegExp.prototype.test\<close> without anchors: a match may start at any position.\<close>

fun rx_test :: "rx \<Rightarrow> string \<Rightarrow> bool" where
  "rx_test r [] = nullable r"
| "rx_test r (c # cs) = (match_prefix r (c # cs) \<or> rx_test r cs)"

fun lit :: "string \<Rightarrow> rx" where
  "lit [] = Eps"
| "lit [c] = Chr c"
| "lit (c # cs) = Seq (Chr c) (lit cs)"

text \<open>\<open>/(correct|right|true).*(text|answer)|correct_text|correctanswer|right_text|answer_true_text/i\<close>\<close>

definition PATTERNS_TEXT :: rx where
  "PATTERNS_TEXT =
     Alt (Seq (Alt (lit ''correct'') (Alt (lit ''right'') (lit ''true'')))
              (Seq (Star Dot) (Alt (lit ''text'') (lit ''answer''))))
    (Alt (lit ''correct_text'')
    (Alt (lit ''correctanswer'')
    (Alt (lit ''right_text'')
         (lit ''answer_true_text''))))"

text \<open>\<open>/(token|id|answer.*id|answer_token)/i\<close>\<close>

definition PATTERNS_TOKEN :: rx where
  "PATTERNS_TOKEN =
     Alt (lit ''token'')
    (Alt (lit ''id'')
    (Alt (Seq (lit ''answer'') (Seq (Star Dot) (lit ''id'')))
         (lit ''answer_token'')))"

definition TEXT_test :: "string \<Rightarrow> bool" where
  "TEXT_test key = rx_test PATTERNS_TEXT key"

definition TOKEN_test :: "string \<Rightarrow> bool" where
  "TOKEN_test key = rx_test PATTERNS_TOKEN key"

section \<open>Extraction (inject.js, extractCorrectInfo)\<close>

text \<open>The two variables \<open>correctText\<close> and \<open>correctToken\<close> of the closure, \<open>null\<close>
  being \<open>None\<close>; the same record is the descriptor returned.\<close>

record descriptor =
  correctText :: "string option"
  correctToken :: "string option"

text \<open>\<open>!x\<close> for a variable holding \<open>null\<close> or a string.\<close>

fun falsy_str :: "string option \<Rightarrow> bool" where
  "falsy_str None = True"
| "falsy_str (Some s) = (s = [])"

text \<open>The body of the loop over \<open>Object.entries(obj)\<close> up to the recursive call: the
  two pattern tests on one entry. \<open>String(value)\<close> is the value itself for a string and the
  rendering of the number for a number.\<close>

definition visit_entry :: "string \<Rightarrow> jsval \<Rightarrow> descriptor \<Rightarrow> descriptor" where
  "visit_entry key v acc =
     (let acc1 =
            (if TEXT_test key then
               (case v of
                  JStr s \<Rightarrow> if falsy_str (correctText acc) then acc\<lparr>correctText := Some s\<rparr> else acc
                | _ \<Rightarrow> acc)
             else acc)
      in if TOKEN_test key then
           (case v of
              JStr s \<Rightarrow>
                if falsy_str (correctToken acc1) then acc1\<lparr>correctToken := Some s\<rparr>
                else acc1
            | JNum n \<Rightarrow>
                if falsy_str (correctToken acc1)
                then acc1\<lparr>correctToken := Some (num_to_string n)\<rparr>
                else acc1
            | _ \<Rightarrow> acc1)
         else acc1)"

fun walkObject :: "jsval \<Rightarrow> descriptor \<Rightarrow> descriptor"
  and walkItems :: "jsval list \<Rightarrow> descriptor \<Rightarrow> descriptor"
  and walkEntries :: "(string \<times> jsval) list \<Rightarrow> descriptor \<Rightarrow> descriptor"
where
  "walkObject (JArr xs) acc = walkItems xs acc"
| "walkObject (JObj kvs) acc = walkEntries kvs acc"
| "walkObject JUndefined acc = acc"
| "walkObject JNull acc = acc"
| "walkObject (JBool b) acc = acc"
| "walkObject (JNum n) acc = acc"
| "walkObject (JStr s) acc = acc"
| "walkItems [] acc = acc"
| "walkItems (x # xs) acc = walkItems xs (walkObject x acc)"
| "walkEntries [] acc = acc"
| "walkEntries ((key, v) # kvs) acc =
     walkEntries kvs
       (let acc2 = visit_entry key v acc
        in if typeof_object v \<and> v \<noteq> JNull then walkObject v acc2 else acc2)"

definition extractCorrectInfo :: "jsval \<Rightarrow> descriptor option" where
  "extractCorrectInfo data =
     (if \<not> truthy data \<or> \<not> typeof_object data then None
      else
        let r = walkObject data \<lparr>correctText = None, correctToken = None\<rparr>
        in if \<not> falsy_str (correctText r) \<or> \<not> falsy_str (correctToken r) then Some r
           else None)"

subsection \<open>What the traversal meets\<close>

text \<open>The string values stored under keys of the text class, in the order of the
  traversal: elements of a sequence in order, entries of a mapping in their iteration
  order, an entry before what lies inside its value.\<close>

fun text_hits :: "jsval \<Rightarrow> string list"
  and text_hits_items :: "jsval list \<Rightarrow> string list"
  and text_hits_entries :: "(string \<times> jsval) list \<Rightarrow> string list"
where
  "text_hits (JArr xs) = text_hits_items xs"
| "text_hits (JObj kvs) = text_hits_entries kvs"
| "text_hits JUndefined = []"
| "text_hits JNull = []"
| "text_hits (JBool b) = []"
| "text_hits (JNum n) = []"
| "text_hits (JStr s) = []"
| "text_hits_items [] = []"
| "text_hits_items (x # xs) = text_hits x @ text_hits_items xs"
| "text_hits_entries [] = []"
| "text_hits_entries ((key, v) # kvs) =
     (if TEXT_test key then (case v of JStr s \<Rightarrow> [s] | _ \<Rightarrow> []) else [])
     @ text_hits v @ text_hits_entries kvs"

text \<open>The string form of the string and number values stored under keys of the token
  class, in the same order.\<close>

fun token_hits :: "jsval \<Rightarrow> string list"
  and token_hits_items :: "jsval list \<Rightarrow> string list"
  and token_hits_entries :: "(string \<times> jsval) list \<Rightarrow> string list"
where
  "token_hits (JArr xs) = token_hits_items xs"
| "token_hits (JObj kvs) = token_hits_entries kvs"
| "token_hits JUndefined = []"
| "token_hits JNull = []"
| "token_hits (JBool b) = []"
| "token_hits (JNum n) = []"
| "token_hits (JStr s) = []"
| "token_hits_items [] = []"
| "token_hits_items (x # xs) = token_hits x @ token_hits_items xs"
| "token_hits_entries [] = []"
| "token_hits_entries ((key, v) # kvs) =
     (if TOKEN_test key then
        (case v of JStr s \<Rightarrow> [s] | JNum n \<Rightarrow> [num_to_string n] | _ \<Rightarrow> [])
      else [])
     @ token_hits v @ token_hits_entries kvs"

text \<open>Every key of every mapping inside a value.\<close>

fun keys_of :: "jsval \<Rightarrow> string list"
  and keys_of_items :: "jsval list \<Rightarrow> string list"
  and keys_of_entries :: "(string \<times> jsval) list \<Rightarrow> string list"
where
  "keys_of (JArr xs) = keys_of_items xs"
| "keys_of (JObj kvs) = keys_of_entries kvs"
| "keys_of JUndefined = []"
| "keys_of JNull = []"
| "keys_of (JBool b) = []"
| "keys_of (JNum n) = []"
| "keys_of (JStr s) = []"
| "keys_of_items [] = []"
| "keys_of_items (x # xs) = keys_of x @ keys_of_items xs"
| "keys_of_entries [] = []"
| "keys_of_entries ((key, v) # kvs) = key # keys_of v @ keys_of_entries kvs"

text \<open>A sequence or a keyed mapping.\<close>

fun composite :: "jsval \<Rightarrow> bool" where
  "composite (JArr xs) = True"
| "composite (JObj kvs) = True"
| "composite v = False"

text \<open>The guarded assignment \<open>if (!x) x = s\<close> applied to a variable.\<close>

definition assign_first :: "string \<Rightarrow> string option \<Rightarrow> string option" where
  "assign_first s c = (if falsy_str c then Some s else c)"

text \<open>The non-empty strings of a list.\<close>

definition nonempty :: "string list \<Rightarrow> string list" where
  "nonempty ss = filter (\<lambda>s. s \<noteq> []) ss"

section \<open>Socket messages and the relay (inject.js)\<close>

definition MESSAGE_SOURCE :: string where
  "MESSAGE_SOURCE = ''quiz-helper''"

definition MESSAGE_TYPE :: string where
  "MESSAGE_TYPE = ''CORRECT''"


text \<open>The object literal \<open>{ correctText, correctToken }\<close> as a value.\<close>

definition field_value :: "string option \<Rightarrow> jsval" where
  "field_value f = (case f of None \<Rightarrow> JNull | Some s \<Rightarrow> JStr s)"

definition descriptor_value :: "descriptor \<Rightarrow> jsval" where
  "descriptor_value info =
     JObj [(''correctText'', field_value (correctText info)),
           (''correctToken'', field_value (correctToken info))]"

text \<open>\<open>postCorrectAnswer\<close>: the message handed to \<open>window.postMessage\<close>.\<close>

definition postCorrectAnswer :: "descriptor \<Rightarrow> jsval" where
  "postCorrectAnswer info =
     JObj [(''source'', JStr MESSAGE_SOURCE), (''type'', JStr MESSAGE_TYPE),
           (''payload'', descriptor_value info)]"


definition startsWith :: "string \<Rightarrow> string \<Rightarrow> bool" where
  "startsWith s p = (take (length p) s = p)"




section \<open>The document (qh_content.js)\<close>

text \<open>
  The document as the content script observes it: its elements in document order, each
  with what the script reads of it. An element is referred to by its position; \<open>parent\<close>
  is \<open>parentElement\<close>, \<open>children_count\<close> is \<open>children.length\<close>, \<open>in_body\<close> says whether
  the element matches \<open>body *\<close>, \<open>innerText\<close> is \<open>None\<close> where the property is undefined.
\<close>

record element =
  tag :: string
  attrs :: "(string \<times> string) list"
  classes :: "string list"
  innerText :: "string option"
  textContent :: string
  parent :: "nat option"
  children_count :: nat
  in_body :: bool

type_synonym document = "element list"

definition CORRECT_CLASS :: string where
  "CORRECT_CLASS = ''quiz-helper-correct''"

definition TOKEN_ATTRIBUTES :: "string list" where
  "TOKEN_ATTRIBUTES = [''data-token'', ''data-id'', ''data-answer-id'', ''data-key'', ''data-value'']"

definition MAX_PARENT_DEPTH :: nat where
  "MAX_PARENT_DEPTH = 6"

definition MAX_CANDIDATES :: nat where
  "MAX_CANDIDATES = 1500"

definition MAX_TEXT_ELEMENTS :: nat where
  "MAX_TEXT_ELEMENTS = 200"


text \<open>\<open>element.matches(CONFIG.ANSWER_SELECTORS)\<close>: \<open>button, a, li, [role="button"], .btn,
  .answer, .option, .list-group-item, .quiz__answer, .quiz-answer\<close>.\<close>

definition matches_ANSWER_SELECTORS :: "element \<Rightarrow> bool" where
  "matches_ANSWER_SELECTORS e =
     (tag e = ''button'' \<or> tag e = ''a'' \<or> tag e = ''li''
      \<or> map_of (attrs e) ''role'' = Some ''button''
      \<or> ''btn'' \<in> set (classes e)
      \<or> ''answer'' \<in> set (classes e)
      \<or> ''option'' \<in> set (classes e)
      \<or> ''list-group-item'' \<in> set (classes e)
      \<or> ''quiz__answer'' \<in> set (classes e)
      \<or> ''quiz-answer'' \<in> set (classes e))"

text \<open>\<open>document.querySelectorAll\<close> and \<open>document.querySelector\<close> for a selector given as
  a predicate: the matching elements in document order, and the first of them.\<close>

definition querySelectorAll :: "(element \<Rightarrow> bool) \<Rightarrow> document \<Rightarrow> nat list" where
  "querySelectorAll sel doc = filter (\<lambda>i. sel (doc ! i)) [0..<length doc]"

definition querySelector :: "(element \<Rightarrow> bool) \<Rightarrow> document \<Rightarrow> nat option" where
  "querySelector sel doc =
     (case querySelectorAll sel doc of [] \<Rightarrow> None | i # rest \<Rightarrow> Some i)"

subsection \<open>normalizeText\<close>

definition is_space :: "char \<Rightarrow> bool" where
  "is_space c =
     (c = CHR 0x09 \<or> c = CHR 0x0A \<or> c = CHR 0x0B \<or> c = CHR 0x0C \<or> c = CHR 0x0D
      \<or> c = CHR 0x20 \<or> c = CHR 0xA0)"

text \<open>\<open>replace(/\s+/g, ' ')\<close>\<close>

function collapse_spaces :: "string \<Rightarrow> string" where
  "collapse_spaces [] = []"
| "collapse_spaces (c # cs) =
     (if is_space c then CHR '' '' # collapse_spaces (dropWhile is_space cs)
      else c # collapse_spaces cs)"
  by pat_completeness auto
termination
  by (relation "measure length") (auto simp: length_dropWhile_le less_Suc_eq_le)

definition trim :: "string \<Rightarrow> string" where
  "trim s = rev (dropWhile is_space (rev (dropWhile is_space s)))"

text \<open>\<open>toLowerCase\<close> on the characters of the model (Latin-1).\<close>

definition lower_char :: "char \<Rightarrow> char" where
  "lower_char c =
     (let n = of_char c :: nat
      in if (65 \<le> n \<and> n \<le> 90) \<or> (192 \<le> n \<and> n \<le> 222 \<and> n \<noteq> 215) then char_of (n + 32)
         else c)"

definition normalize_string :: "string \<Rightarrow> string" where
  "normalize_string s = map lower_char (trim (collapse_spaces s))"

text \<open>\<open>normalizeText(text)\<close>: \<open>(text || '')\<close> is the empty string for a falsy argument and
  the argument itself otherwise; \<open>.replace\<close> is not a function on a truthy value that is
  not a string, and the call throws.\<close>

definition normalizeText :: "jsval \<Rightarrow> error + string" where
  "normalizeText text =
     (if \<not> truthy text then Inr (normalize_string [])
      else (case text of JStr s \<Rightarrow> Inr (normalize_string s) | _ \<Rightarrow> Inl TypeError))"

text \<open>\<open>normalizeText(element.innerText || element.textContent)\<close>\<close>

definition elementText :: "element \<Rightarrow> string" where
  "elementText e =
     normalize_string
       (case innerText e of
          Some t \<Rightarrow> if t \<noteq> [] then t else textContent e
        | None \<Rightarrow> textContent e)"

text \<open>\<open>s.includes(sub)\<close>\<close>

fun str_includes :: "string \<Rightarrow> string \<Rightarrow> bool" where
  "str_includes [] sub = (sub = [])"
| "str_includes (c # cs) sub = (startsWith (c # cs) sub \<or> str_includes cs sub)"

subsection \<open>Looking an element up\<close>

text \<open>\<open>node.matches?.(...)\<close> and \<open>node.parentElement\<close> for a reference; a position
  outside the document is no element of it.\<close>

definition matches_at :: "document \<Rightarrow> nat \<Rightarrow> bool" where
  "matches_at doc n = (n < length doc \<and> matches_ANSWER_SELECTORS (doc ! n))"

definition parentElement :: "document \<Rightarrow> nat \<Rightarrow> nat option" where
  "parentElement doc n = (if n < length doc then parent (doc ! n) else None)"

text \<open>The loop of \<open>findClosestAnswer\<close>, from counter \<open>i\<close> and node \<open>node\<close>: the node it
  returns from inside the loop, or \<open>None\<close> when the loop ends.\<close>

function closest_from :: "document \<Rightarrow> nat \<Rightarrow> nat option \<Rightarrow> nat option" where
  "closest_from doc i node =
     (case node of
        None \<Rightarrow> None
      | Some n \<Rightarrow>
          if i < MAX_PARENT_DEPTH then
            (if matches_at doc n then Some n
             else closest_from doc (Suc i) (parentElement doc n))
          else None)"
  by pat_completeness auto
termination
  by (relation "measure (\<lambda>(doc, i, node). MAX_PARENT_DEPTH - i)") auto

definition findClosestAnswer :: "document \<Rightarrow> nat \<Rightarrow> nat" where
  "findClosestAnswer doc element =
     (case closest_from doc 0 (Some element) of Some n \<Rightarrow> n | None \<Rightarrow> element)"

text \<open>
  The string that \<open>"\<close> + \<open>cssEscape(value)\<close> + \<open>"\<close> denotes inside the attribute selector:
  \<open>String(value)\<close> itself, every escape standing for the character it escapes. The one
  exception is the NUL character, which comes back as U+FFFD, a character outside the
  model: such a selector matches no element. There is no such string either when
  \<open>String(value)\<close> throws.
\<close>

definition selector_string :: "jsval \<Rightarrow> string option" where
  "selector_string v =
     (case String_js v of
        Inl err \<Rightarrow> None
      | Inr s \<Rightarrow> if CHR 0x00 \<in> set s then None else Some s)"

text \<open>\<open>[data-token="t"], [data-id="t"], ...\<close> over \<open>TOKEN_ATTRIBUTES\<close>.\<close>

definition token_selector :: "string \<Rightarrow> element \<Rightarrow> bool" where
  "token_selector t e = list_ex (\<lambda>attr. map_of (attrs e) attr = Some t) TOKEN_ATTRIBUTES"

text \<open>\<open>findByToken\<close>: \<open>cssEscape(token)\<close> starts with \<open>String(token)\<close>, whose TypeError
  nothing catches.\<close>

definition findByToken :: "jsval \<Rightarrow> document \<Rightarrow> error + nat option" where
  "findByToken token doc =
     (if \<not> truthy token then Inr None
      else
        (case String_js token of
           Inl err \<Rightarrow> Inl err
         | Inr escaped \<Rightarrow>
             (case selector_string token of
                None \<Rightarrow> Inr None
              | Some t \<Rightarrow> Inr (querySelector (token_selector t) doc))))"

definition candidates :: "document \<Rightarrow> nat list" where
  "candidates doc = take MAX_CANDIDATES (querySelectorAll matches_ANSWER_SELECTORS doc)"

definition allLeaves :: "document \<Rightarrow> nat list" where
  "allLeaves doc =
     take MAX_TEXT_ELEMENTS
       (filter (\<lambda>i. children_count (doc ! i) = 0) (querySelectorAll in_body doc))"

definition findByText :: "jsval \<Rightarrow> document \<Rightarrow> error + nat option" where
  "findByText text doc =
     (if \<not> truthy text then Inr None
      else
        (case normalizeText text of
           Inl err \<Rightarrow> Inl err
         | Inr normalizedSearchText \<Rightarrow>
             (case find (\<lambda>i. elementText (doc ! i) = normalizedSearchText) (candidates doc) of
                Some i \<Rightarrow> Inr (Some i)
              | None \<Rightarrow>
                  (case find (\<lambda>i. str_includes (elementText (doc ! i)) normalizedSearchText)
                          (candidates doc) of
                     Some i \<Rightarrow> Inr (Some i)
                   | None \<Rightarrow>
                       Inr (find (\<lambda>i. elementText (doc ! i) = normalizedSearchText)
                              (allLeaves doc))))))"

section \<open>Highlighting (qh_content.js)\<close>

record state =
  lastPayload :: jsval
  lastMarkTimestamp :: int
  mutationScheduled :: bool

definition initial_state :: state where
  "initial_state = \<lparr>lastPayload = JNull, lastMarkTimestamp = 0, mutationScheduled = False\<rparr>"

definition has_marker :: "element \<Rightarrow> bool" where
  "has_marker e = (CORRECT_CLASS \<in> set (classes e))"

text \<open>The elements of the document that carry the marker class.\<close>

definition marked :: "document \<Rightarrow> nat list" where
  "marked doc = querySelectorAll has_marker doc"

definition classList_remove :: "string \<Rightarrow> element \<Rightarrow> element" where
  "classList_remove c e = e\<lparr>classes := removeAll c (classes e)\<rparr>"

definition classList_add :: "string \<Rightarrow> element \<Rightarrow> element" where
  "classList_add c e = e\<lparr>classes := (if c \<in> set (classes e) then classes e else classes e @ [c])\<rparr>"

definition clearPreviousHighlight :: "document \<Rightarrow> document" where
  "clearPreviousHighlight doc =
     fold (\<lambda>i d. d[i := classList_remove CORRECT_CLASS (d ! i)]) (marked doc) doc"

text \<open>\<open>markAsCorrect(element)\<close> at time \<open>now\<close> (\<open>Date.now()\<close>); the argument may be \<open>null\<close>.\<close>

definition markAsCorrect :: "int \<Rightarrow> nat option \<Rightarrow> state \<Rightarrow> document \<Rightarrow> state \<times> document" where
  "markAsCorrect now element s doc =
     (case element of
        None \<Rightarrow> (s, doc)
      | Some el \<Rightarrow>
          let d1 = clearPreviousHighlight doc;
              targetElement = findClosestAnswer d1 el
          in (s\<lparr>lastMarkTimestamp := now\<rparr>,
              if targetElement < length d1
              then d1[targetElement := classList_add CORRECT_CLASS (d1 ! targetElement)]
              else d1))"

datatype strategy = TokenLookup | TextLookup

text \<open>
  The part of \<open>tryMarkCorrectAnswer\<close> that resolves the pending payload to an element
  (the variable \<open>element\<close> before the final test), together with the lookups it ran, in
  order.
\<close>

definition locate :: "jsval \<Rightarrow> document \<Rightarrow> (error + nat option) \<times> strategy list" where
  "locate payload doc =
     (let (byToken, ran) =
            (if truthy (get_prop payload ''correctToken'')
             then (findByToken (get_prop payload ''correctToken'') doc, [TokenLookup])
             else (Inr None, []))
      in case byToken of
           Inl err \<Rightarrow> (Inl err, ran)
         | Inr element \<Rightarrow>
             if element = None \<and> truthy (get_prop payload ''correctText'')
             then (findByText (get_prop payload ''correctText'') doc, ran @ [TextLookup])
             else (Inr element, ran))"

text \<open>\<open>tryMarkCorrectAnswer\<close>: the error thrown, if any, and the state and document it
  leaves.\<close>

definition tryMarkCorrectAnswer :: "int \<Rightarrow> state \<Rightarrow> document \<Rightarrow> error option \<times> state \<times> document" where
  "tryMarkCorrectAnswer now s doc =
     (if \<not> truthy (lastPayload s) then (None, s, doc)
      else
        (case fst (locate (lastPayload s) doc) of
           Inl err \<Rightarrow> (Some err, s, doc)
         | Inr None \<Rightarrow> (None, s, doc)
         | Inr (Some el) \<Rightarrow>
             (let (s1, d1) = markAsCorrect now (Some el) s doc
              in (None, s1\<lparr>lastPayload := JNull\<rparr>, d1))))"

text \<open>A \<open>message\<close> event: whether \<open>event.source === window\<close>, and \<open>event.data\<close>.\<close>

record message_event =
  from_window :: bool
  data :: jsval

definition accepted :: "message_event \<Rightarrow> bool" where
  "accepted ev =
     (from_window ev \<and> truthy (data ev)
      \<and> get_prop (data ev) ''source'' = JStr MESSAGE_SOURCE
      \<and> get_prop (data ev) ''type'' = JStr MESSAGE_TYPE)"

text \<open>The \<open>message\<close> listener.\<close>

definition onMessage :: "int \<Rightarrow> message_event \<Rightarrow> state \<Rightarrow> document \<Rightarrow> error option \<times> state \<times> document" where
  "onMessage now ev s doc =
     (if \<not> from_window ev then (None, s, doc)
      else
        let message = data ev
        in if \<not> truthy message
              \<or> get_prop message ''source'' \<noteq> JStr MESSAGE_SOURCE
              \<or> get_prop message ''type'' \<noteq> JStr MESSAGE_TYPE
           then (None, s, doc)
           else tryMarkCorrectAnswer now (s\<lparr>lastPayload := get_prop message ''payload''\<rparr>) doc)"



subsection \<open>The life of the highlight\<close>



subsection \<open>Ancestor promotion\<close>

text \<open>The element itself and its ancestors, nearest first: at most \<open>k\<close> nodes.\<close>

fun inclusive_ancestors :: "document \<Rightarrow> nat \<Rightarrow> nat option \<Rightarrow> nat list" where
  "inclusive_ancestors doc 0 node = []"
| "inclusive_ancestors doc (Suc k) None = []"
| "inclusive_ancestors doc (Suc k) (Some n) = n # inclusive_ancestors doc k (parentElement doc n)"

text \<open>Promotion as the specification words it: the walk goes through six ancestor
  generations, the element itself included among the nodes it may promote to. That is the
  element and six ancestors, seven nodes.\<close>

definition promoted_through_six_generations :: "document \<Rightarrow> nat \<Rightarrow> nat" where
  "promoted_through_six_generations doc element =
     (case find (matches_at doc) (inclusive_ancestors doc 7 (Some element)) of
        Some a \<Rightarrow> a
      | None \<Rightarrow> element)"

text \<open>Promotion over six nodes, the element and five ancestor generations: the nearest of
  them that satisfies the answer selectors, the element itself when none does.\<close>

definition promoted :: "document \<Rightarrow> nat \<Rightarrow> nat" where
  "promoted doc element =
     (case find (matches_at doc) (inclusive_ancestors doc 6 (Some element)) of
        Some a \<Rightarrow> a
      | None \<Rightarrow> element)"

subsection \<open>Sample pages and messages\<close>

text \<open>An element of a sample page: tag, text, attributes, parent and number of element
  children; it lies in the body and has no classes.\<close>

definition sample_element ::
  "string \<Rightarrow> string \<Rightarrow> (string \<times> string) list \<Rightarrow> nat option \<Rightarrow> nat \<Rightarrow> element" where
  "sample_element t txt as p n =
     \<lparr>tag = t, attrs = as, classes = [], innerText = Some txt, textContent = txt,
      parent = p, children_count = n, in_body = True\<rparr>"

text \<open>A message from the page's own window that carries both tags and the given payload.\<close>

definition envelope :: "jsval \<Rightarrow> message_event" where
  "envelope payload =
     \<lparr>from_window = True,
      data = JObj [(''source'', JStr MESSAGE_SOURCE), (''type'', JStr MESSAGE_TYPE),
                   (''payload'', payload)]\<rparr>"

text \<open>The \<open>html\<close> and \<open>body\<close> elements of a sample page, given the text of the page and
  the number of element children of the body.\<close>

definition page_frame :: "string \<Rightarrow> nat \<Rightarrow> document" where
  "page_frame txt n =
     [\<lparr>tag = ''html'', attrs = [], classes = [], innerText = Some txt, textContent = txt,
       parent = None, children_count = 2, in_body = False\<rparr>,
      \<lparr>tag = ''body'', attrs = [], classes = [], innerText = Some txt, textContent = txt,
       parent = Some 0, children_count = n, in_body = False\<rparr>]"

text \<open>Sample pages; the elements of the body start at position 2. Two answer buttons:\<close>

definition capitals_page :: document where
  "capitals_page =
     page_frame ''Rome Paris'' 2 @
     [sample_element ''button'' ''Rome'' [] (Some 1) 0,
      sample_element ''button'' ''Paris'' [] (Some 1) 0]"

text \<open>A button that contains the text and, after it, a button that is the text:\<close>

definition paris_page :: document where
  "paris_page =
     page_frame ''Paris, France Paris'' 2 @
     [sample_element ''button'' ''Paris, France'' [] (Some 1) 0,
      sample_element ''button'' ''Paris'' [] (Some 1) 0]"

text \<open>An element that carries a token, before an answer button:\<close>

definition token_page :: document where
  "token_page =
     page_frame ''Rome Paris'' 2 @
     [sample_element ''div'' ''Rome'' [(''data-id'', ''42'')] (Some 1) 0,
      sample_element ''button'' ''Paris'' [] (Some 1) 0]"

text \<open>A token on an element nested in a list item; the same without an answer-shaped
  ancestor; and the same with the list item six generations above the element:\<close>

definition nested_page :: document where
  "nested_page =
     page_frame ''Paris'' 1 @
     [sample_element ''li'' ''Paris'' [] (Some 1) 1,
      sample_element ''span'' ''Paris'' [] (Some 2) 1,
      sample_element ''b'' ''Paris'' [(''data-id'', ''7'')] (Some 3) 0]"

definition plain_page :: document where
  "plain_page =
     page_frame ''Paris'' 1 @
     [sample_element ''div'' ''Paris'' [] (Some 1) 1,
      sample_element ''span'' ''Paris'' [] (Some 2) 1,
      sample_element ''b'' ''Paris'' [(''data-id'', ''7'')] (Some 3) 0]"

definition deep_page :: document where
  "deep_page =
     page_frame ''Paris'' 1 @
     [sample_element ''li'' ''Paris'' [] (Some 1) 1,
      sample_element ''div'' ''Paris'' [] (Some 2) 1,
      sample_element ''div'' ''Paris'' [] (Some 3) 1,
      sample_element ''div'' ''Paris'' [] (Some 4) 1,
      sample_element ''div'' ''Paris'' [] (Some 5) 1,
      sample_element ''div'' ''Paris'' [] (Some 6) 1,
      sample_element ''b'' ''Paris'' [(''data-id'', ''7'')] (Some 7) 0]"




text \<open>The payload of a descriptor that carries a text only.\<close>

definition text_descriptor :: "string \<Rightarrow> jsval" where
  "text_descriptor t = descriptor_value \<lparr>correctText = Some t, correctToken = None\<rparr>"

section \<open>Properties of the extraction\<close>

lemma visit_entry_text:
  "correctText (visit_entry key v acc) =
     fold assign_first (if TEXT_test key then (case v of JStr s \<Rightarrow> [s] | _ \<Rightarrow> []) else [])
       (correctText acc)"
  by (simp add: visit_entry_def assign_first_def Let_def split: jsval.splits)

lemma visit_entry_token:
  "correctToken (visit_entry key v acc) =
     fold assign_first
       (if TOKEN_test key then
          (case v of JStr s \<Rightarrow> [s] | JNum n \<Rightarrow> [num_to_string n] | _ \<Rightarrow> [])
        else [])
       (correctToken acc)"
  by (simp add: visit_entry_def assign_first_def Let_def split: jsval.splits)

lemma walk_text:
  "correctText (walkObject j acc) = fold assign_first (text_hits j) (correctText acc)"
  "correctText (walkItems xs acc) = fold assign_first (text_hits_items xs) (correctText acc)"
  "correctText (walkEntries kvs acc) = fold assign_first (text_hits_entries kvs) (correctText acc)"
proof (induction j acc and xs acc and kvs acc rule: walkObject_walkItems_walkEntries.induct)
  case (11 key v kvs acc)
  then show ?case by (cases v) (simp_all add: visit_entry_text Let_def)
qed simp_all

lemma walk_token:
  "correctToken (walkObject j acc) = fold assign_first (token_hits j) (correctToken acc)"
  "correctToken (walkItems xs acc) = fold assign_first (token_hits_items xs) (correctToken acc)"
  "correctToken (walkEntries kvs acc) = fold assign_first (token_hits_entries kvs) (correctToken acc)"
proof (induction j acc and xs acc and kvs acc rule: walkObject_walkItems_walkEntries.induct)
  case (11 key v kvs acc)
  then show ?case by (cases v) (simp_all add: visit_entry_token Let_def)
qed simp_all

lemma fold_assign_truthy: "\<not> falsy_str c \<Longrightarrow> fold assign_first ss c = c"
  by (induction ss arbitrary: c) (simp_all add: assign_first_def)

lemma fold_assign_first:
  "falsy_str c \<Longrightarrow> nonempty ss = s # rest \<Longrightarrow> fold assign_first ss c = Some s"
proof (induction ss arbitrary: c)
  case Nil
  then show ?case by (simp add: nonempty_def)
next
  case (Cons a ss)
  show ?case
  proof (cases "a = []")
    case True
    then show ?thesis using Cons by (simp add: nonempty_def assign_first_def)
  next
    case False
    then have "a = s" using Cons.prems by (simp add: nonempty_def)
    moreover have "assign_first a c = Some a" using Cons.prems(1) by (simp add: assign_first_def)
    moreover have "\<not> falsy_str (Some a)" using False by simp
    ultimately show ?thesis by (simp add: fold_assign_truthy)
  qed
qed

lemma fold_assign_none:
  "falsy_str c \<Longrightarrow> nonempty ss = [] \<Longrightarrow> falsy_str (fold assign_first ss c)"
  by (induction ss arbitrary: c) (auto simp: nonempty_def assign_first_def split: if_splits)

lemma hits_composite:
  "text_hits j \<noteq> [] \<Longrightarrow> composite j" "token_hits j \<noteq> [] \<Longrightarrow> composite j"
  by (cases j; simp)+

lemma composite_guard: "composite j \<Longrightarrow> truthy j \<and> typeof_object j"
  by (cases j) simp_all

lemma extract_composite:
  "composite j \<Longrightarrow>
   extractCorrectInfo j =
     (let r = walkObject j \<lparr>correctText = None, correctToken = None\<rparr>
      in if \<not> falsy_str (correctText r) \<or> \<not> falsy_str (correctToken r) then Some r else None)"
  by (simp add: extractCorrectInfo_def composite_guard)

lemma extract_first_text:
  assumes "nonempty (text_hits j) = s # rest"
  shows "\<exists>d. extractCorrectInfo j = Some d \<and> correctText d = Some s"
proof -
  have h: "text_hits j \<noteq> []" using assms by (auto simp: nonempty_def)
  have c: "composite j" using h by (rule hits_composite)
  have "correctText (walkObject j \<lparr>correctText = None, correctToken = None\<rparr>) = Some s"
    using assms by (simp add: walk_text fold_assign_first)
  moreover have "s \<noteq> []" using assms unfolding nonempty_def
    by (metis (mono_tags, lifting) filter_eq_ConsD)
  ultimately show ?thesis by (simp add: extract_composite[OF c] Let_def)
qed

lemma extract_first_token:
  assumes "nonempty (token_hits j) = s # rest"
  shows "\<exists>d. extractCorrectInfo j = Some d \<and> correctToken d = Some s"
proof -
  have h: "token_hits j \<noteq> []" using assms by (auto simp: nonempty_def)
  have c: "composite j" using h by (rule hits_composite)
  have "correctToken (walkObject j \<lparr>correctText = None, correctToken = None\<rparr>) = Some s"
    using assms by (simp add: walk_token fold_assign_first)
  moreover have "s \<noteq> []" using assms unfolding nonempty_def
    by (metis (mono_tags, lifting) filter_eq_ConsD)
  ultimately show ?thesis by (simp add: extract_composite[OF c] Let_def)
qed

lemma no_key_no_hit:
  "\<forall>k \<in> set (keys_of j). \<not> TEXT_test k \<and> \<not> TOKEN_test k \<Longrightarrow>
     text_hits j = [] \<and> token_hits j = []"
  "\<forall>k \<in> set (keys_of_items xs). \<not> TEXT_test k \<and> \<not> TOKEN_test k \<Longrightarrow>
     text_hits_items xs = [] \<and> token_hits_items xs = []"
  "\<forall>k \<in> set (keys_of_entries kvs). \<not> TEXT_test k \<and> \<not> TOKEN_test k \<Longrightarrow>
     text_hits_entries kvs = [] \<and> token_hits_entries kvs = []"
  by (induction j and xs and kvs rule: keys_of_keys_of_items_keys_of_entries.induct) simp_all

lemma extract_no_hits:
  "text_hits j = [] \<Longrightarrow> token_hits j = [] \<Longrightarrow> extractCorrectInfo j = None"
  by (simp add: extractCorrectInfo_def walk_text walk_token Let_def)

lemma extract_not_composite: "\<not> composite j \<Longrightarrow> extractCorrectInfo j = None"
  by (cases j) (simp_all add: extractCorrectInfo_def)

lemma falsy_str_None: "\<not> falsy_str c \<Longrightarrow> c \<noteq> None"
  by (cases c) simp_all

lemma extract_some_field:
  "extractCorrectInfo j = Some d \<Longrightarrow> correctText d \<noteq> None \<or> correctToken d \<noteq> None"
  by (auto simp: extractCorrectInfo_def Let_def split: if_splits dest: falsy_str_None)

lemma digits_nonempty: "digits n \<noteq> []"
  by (subst digits.simps) simp

lemma num_to_string_nonempty: "num_to_string n \<noteq> []"
  by (simp add: num_to_string_def digits_nonempty)

lemma extract_number_token:
  "TOKEN_test k \<Longrightarrow>
   \<exists>d. extractCorrectInfo (JObj [(k, JNum n)]) = Some d \<and> correctToken d = Some (num_to_string n)"
  using extract_first_token[of "JObj [(k, JNum n)]" "num_to_string n" "[]"]
  by (simp add: nonempty_def num_to_string_nonempty)

text \<open>
  Claim C1, as the code has it. The guard of each assignment is \<open>!correctText\<close>
  (\<open>!correctToken\<close>), which an empty string passes like \<open>null\<close>: the value kept is the
  first non-empty string stored under a key of the text class, in traversal order, and
  likewise the first non-empty string form of a string or number stored under a key of the
  token class. A later hit never replaces a non-empty earlier one.
\<close>

theorem extract_first_nonempty_wins:
  "(nonempty (text_hits j) \<noteq> [] \<longrightarrow>
      (\<exists>d. extractCorrectInfo j = Some d \<and> correctText d = Some (hd (nonempty (text_hits j)))))
   \<and> (nonempty (token_hits j) \<noteq> [] \<longrightarrow>
      (\<exists>d. extractCorrectInfo j = Some d \<and> correctToken d = Some (hd (nonempty (token_hits j)))))"
proof (intro conjI impI)
  assume "nonempty (text_hits j) \<noteq> []"
  then obtain s rest where "nonempty (text_hits j) = s # rest"
    by (cases "nonempty (text_hits j)") auto
  then show "\<exists>d. extractCorrectInfo j = Some d \<and> correctText d = Some (hd (nonempty (text_hits j)))"
    using extract_first_text by fastforce
next
  assume "nonempty (token_hits j) \<noteq> []"
  then obtain s rest where "nonempty (token_hits j) = s # rest"
    by (cases "nonempty (token_hits j)") auto
  then show "\<exists>d. extractCorrectInfo j = Some d \<and> correctToken d = Some (hd (nonempty (token_hits j)))"
    using extract_first_token by fastforce
qed

lemma num_strings: "num_to_string 42 = ''42''" "num_to_string 7 = ''7''"
  by code_simp+

lemma test_keys:
  "TEXT_test ''correct_text''" "TEXT_test ''right_answer''" "TEXT_test ''correct_answer''"
  "\<not> TEXT_test ''items''" "\<not> TEXT_test ''answer_id''" "\<not> TEXT_test ''token''"
  "\<not> TEXT_test ''answer_token''" "\<not> TEXT_test ''name''"
  "\<not> TOKEN_test ''correct_text''" "\<not> TOKEN_test ''right_answer''"
  "\<not> TOKEN_test ''correct_answer''" "\<not> TOKEN_test ''items''"
  "TOKEN_test ''answer_id''" "TOKEN_test ''token''" "TOKEN_test ''answer_token''"
  "\<not> TOKEN_test ''name''"
  by code_simp+

theorem extract_first_nonempty_wins_witness:
  "nonempty (text_hits (JObj [(''correct_text'', JStr ''''),
       (''items'', JArr [JObj [(''right_answer'', JStr ''Paris''), (''answer_id'', JNum 7)],
                         JObj [(''correct_answer'', JStr ''Rome''), (''token'', JStr ''t9'')]])])) \<noteq> []
   \<and> nonempty (token_hits (JObj [(''correct_text'', JStr ''''),
       (''items'', JArr [JObj [(''right_answer'', JStr ''Paris''), (''answer_id'', JNum 7)],
                         JObj [(''correct_answer'', JStr ''Rome''), (''token'', JStr ''t9'')]])])) \<noteq> []
   \<and> (\<exists>d. extractCorrectInfo (JObj [(''correct_text'', JStr ''''),
       (''items'', JArr [JObj [(''right_answer'', JStr ''Paris''), (''answer_id'', JNum 7)],
                         JObj [(''correct_answer'', JStr ''Rome''), (''token'', JStr ''t9'')]])]) = Some d
        \<and> correctText d = Some ''Paris'')
   \<and> (\<exists>d. extractCorrectInfo (JObj [(''correct_text'', JStr ''''),
       (''items'', JArr [JObj [(''right_answer'', JStr ''Paris''), (''answer_id'', JNum 7)],
                         JObj [(''correct_answer'', JStr ''Rome''), (''token'', JStr ''t9'')]])]) = Some d
        \<and> correctToken d = Some ''7'')"
  using extract_first_nonempty_wins [of "JObj [(''correct_text'', JStr ''''),
       (''items'', JArr [JObj [(''right_answer'', JStr ''Paris''), (''answer_id'', JNum 7)],
                         JObj [(''correct_answer'', JStr ''Rome''), (''token'', JStr ''t9'')]])]"]
  by (simp add: test_keys nonempty_def num_strings)

text \<open>
  Claim C1 as stated fails when the first hit is the empty string: a later hit replaces it,
  and when it is the only hit nothing is returned at all.
\<close>

theorem first_text_value_counterexample:
  "hd (text_hits (JObj [(''correct_text'', JStr ''''), (''right_answer'', JStr ''Paris'')])) = ''''
   \<and> extractCorrectInfo (JObj [(''correct_text'', JStr ''''), (''right_answer'', JStr ''Paris'')])
       = Some \<lparr>correctText = Some ''Paris'', correctToken = None\<rparr>
   \<and> text_hits (JObj [(''correct_text'', JStr '''')]) = ['''']
   \<and> extractCorrectInfo (JObj [(''correct_text'', JStr '''')]) = None"
  by (simp add: test_keys extractCorrectInfo_def visit_entry_def)

text \<open>
  Claim C9. \<open>extractCorrectInfo\<close> is a total function; it returns \<open>null\<close> on every value
  that is not a sequence or a keyed mapping, and on every value none of whose keys matches
  either pattern; a descriptor it returns has at least one field that is not \<open>null\<close>; a
  number stored under a key of the token class is captured in its string form.
\<close>

theorem extract_total_null_or_field:
  "(\<not> composite j \<longrightarrow> extractCorrectInfo j = None)
   \<and> ((\<forall>k \<in> set (keys_of j). \<not> TEXT_test k \<and> \<not> TOKEN_test k) \<longrightarrow> extractCorrectInfo j = None)
   \<and> (extractCorrectInfo j = Some d \<longrightarrow> correctText d \<noteq> None \<or> correctToken d \<noteq> None)
   \<and> (TOKEN_test k \<longrightarrow>
        (\<exists>d'. extractCorrectInfo (JObj [(k, JNum n)]) = Some d'
              \<and> correctToken d' = Some (num_to_string n)))"
  using extract_not_composite extract_no_hits no_key_no_hit(1) extract_some_field
    extract_number_token
  by blast

theorem extract_total_null_or_field_witness:
  "\<not> composite (JNum 5) \<and> extractCorrectInfo (JNum 5) = None
   \<and> keys_of (JObj [(''name'', JArr [JObj [(''items'', JStr ''x'')]])]) = [''name'', ''items'']
   \<and> \<not> TEXT_test ''name'' \<and> \<not> TOKEN_test ''name''
   \<and> \<not> TEXT_test ''items'' \<and> \<not> TOKEN_test ''items''
   \<and> extractCorrectInfo (JObj [(''name'', JArr [JObj [(''items'', JStr ''x'')]])]) = None
   \<and> extractCorrectInfo (JObj [(''answer_token'', JNum 42)])
       = Some \<lparr>correctText = None, correctToken = Some ''42''\<rparr>
   \<and> correctToken \<lparr>correctText = None, correctToken = Some ''42''\<rparr> \<noteq> None
   \<and> TOKEN_test ''answer_token''
   \<and> num_to_string 42 = ''42''"
proof -
  have e: "extractCorrectInfo (JObj [(''answer_token'', JNum 42)])
       = Some \<lparr>correctText = None, correctToken = Some ''42''\<rparr>"
    by (simp add: test_keys extractCorrectInfo_def visit_entry_def num_strings)
  have n: "num_to_string 42 = ''42''" by (rule num_strings)
  show ?thesis
    using extract_total_null_or_field [of "JNum 5" "\<lparr>correctText = None, correctToken = None\<rparr>" "''answer_token''" 42]
      extract_total_null_or_field [of "JObj [(''name'', JArr [JObj [(''items'', JStr ''x'')]])]"
         "\<lparr>correctText = None, correctToken = None\<rparr>" "''answer_token''" 42]
      extract_total_null_or_field [of "JObj [(''answer_token'', JNum 42)]"
         "\<lparr>correctText = None, correctToken = Some ''42''\<rparr>" "''answer_token''" 42]
      e n
    by (simp add: test_keys)
qed

section \<open>Properties of the lookup and of the highlight\<close>

lemma closest_from_find:
  "closest_from doc i node = find (matches_at doc) (inclusive_ancestors doc (MAX_PARENT_DEPTH - i) node)"
proof (induction doc i node rule: closest_from.induct)
  case (1 doc i node)
  show ?case
  proof (cases node)
    case None
    then show ?thesis
      by (subst closest_from.simps) (cases "MAX_PARENT_DEPTH - i"; simp)
  next
    case (Some n)
    show ?thesis
    proof (cases "i < MAX_PARENT_DEPTH")
      case True
      then obtain k where k: "MAX_PARENT_DEPTH - i = Suc k" "MAX_PARENT_DEPTH - Suc i = k"
        by (cases "MAX_PARENT_DEPTH - i") auto
      show ?thesis
        using 1[OF Some True] Some True k
        by (subst closest_from.simps) simp
    next
      case False
      then show ?thesis using Some
        by (subst closest_from.simps) simp
    qed
  qed
qed

lemma findClosestAnswer_promoted: "findClosestAnswer doc element = promoted doc element"
  unfolding findClosestAnswer_def promoted_def closest_from_find MAX_PARENT_DEPTH_def
  by simp

lemma find_matches_in_range: "find (matches_at doc) xs = Some a \<Longrightarrow> a < length doc"
  by (induction xs) (auto simp: matches_at_def split: if_splits)

lemma promoted_in_range: "element < length doc \<Longrightarrow> promoted doc element < length doc"
  by (auto simp: promoted_def split: option.splits dest: find_matches_in_range)

lemma fold_update_nth:
  assumes "\<And>x. R (R x) = R x"
  shows "j < length d \<Longrightarrow>
    (fold (\<lambda>i d. d[i := R (d ! i)]) idxs d) ! j = (if j \<in> set idxs then R (d ! j) else d ! j)"
proof (induction idxs arbitrary: d)
  case Nil
  then show ?case by simp
next
  case (Cons i idxs)
  have len: "j < length (d[i := R (d ! i)])" using Cons.prems by simp
  show ?case
    using Cons.IH[OF len] Cons.prems assms
    by (cases "i = j") (auto simp: nth_list_update)
qed

lemma fold_update_length:
  "length (fold (\<lambda>i d. d[i := R (d ! i)]) idxs d) = length d"
  by (induction idxs arbitrary: d) simp_all

lemma classList_remove_idem: "classList_remove c (classList_remove c e) = classList_remove c e"
  by (simp add: classList_remove_def)

lemma classList_remove_absent: "c \<notin> set (classes e) \<Longrightarrow> classList_remove c e = e"
  by (simp add: classList_remove_def)

lemma in_querySelectorAll: "i \<in> set (querySelectorAll sel doc) \<longleftrightarrow> i < length doc \<and> sel (doc ! i)"
  by (auto simp: querySelectorAll_def)

lemma clear_length: "length (clearPreviousHighlight doc) = length doc"
  by (simp add: clearPreviousHighlight_def fold_update_length)

lemma clear_nth:
  "i < length doc \<Longrightarrow> clearPreviousHighlight doc ! i = classList_remove CORRECT_CLASS (doc ! i)"
  unfolding clearPreviousHighlight_def
  by (subst fold_update_nth)
     (auto simp: classList_remove_idem marked_def in_querySelectorAll has_marker_def
        classList_remove_absent)

lemma clear_map: "clearPreviousHighlight doc = map (classList_remove CORRECT_CLASS) doc"
  by (rule nth_equalityI) (simp_all add: clear_length clear_nth)

lemma querySelectorAll_none:
  "(\<And>i. i < length doc \<Longrightarrow> \<not> sel (doc ! i)) \<Longrightarrow> querySelectorAll sel doc = []"
  by (auto simp: querySelectorAll_def filter_empty_conv)

lemma marked_clear: "marked (clearPreviousHighlight doc) = []"
  unfolding marked_def
  by (rule querySelectorAll_none)
     (simp add: clear_length clear_nth has_marker_def classList_remove_def)

lemma filter_eq_upt: "filter (\<lambda>i. i = t) [0..<n] = (if t < n then [t] else [])"
  by (induction n) auto

lemma has_marker_add: "has_marker (classList_add CORRECT_CLASS e)"
  by (simp add: has_marker_def classList_add_def)

lemma marked_after_add:
  assumes "marked d = []" "t < length d"
  shows "marked (d[t := classList_add CORRECT_CLASS (d ! t)]) = [t]"
proof -
  have none: "\<And>i. i < length d \<Longrightarrow> \<not> has_marker (d ! i)"
    using assms(1) by (auto simp: marked_def querySelectorAll_def filter_empty_conv)
  have "filter (\<lambda>i. has_marker (d[t := classList_add CORRECT_CLASS (d ! t)] ! i)) [0..<length d]
        = filter (\<lambda>i. i = t) [0..<length d]"
  proof (rule filter_cong)
    fix i assume "i \<in> set [0..<length d]"
    then have i: "i < length d" by simp
    show "has_marker (d[t := classList_add CORRECT_CLASS (d ! t)] ! i) = (i = t)"
      using i none[OF i] assms(2) by (cases "i = t") (simp_all add: has_marker_add)
  qed simp
  then show ?thesis using assms(2) by (simp add: marked_def querySelectorAll_def filter_eq_upt)
qed

lemma matches_clear:
  "matches_at (clearPreviousHighlight doc) n = matches_at doc n"
  by (auto simp: matches_at_def clear_length clear_nth matches_ANSWER_SELECTORS_def
        classList_remove_def CORRECT_CLASS_def)

lemma parent_clear: "parentElement (clearPreviousHighlight doc) n = parentElement doc n"
  by (simp add: parentElement_def clear_length clear_nth classList_remove_def)

lemma ancestors_clear:
  "inclusive_ancestors (clearPreviousHighlight doc) k node = inclusive_ancestors doc k node"
  by (induction doc k node rule: inclusive_ancestors.induct) (simp_all add: parent_clear)

lemma promoted_clear: "promoted (clearPreviousHighlight doc) el = promoted doc el"
proof -
  have "matches_at (clearPreviousHighlight doc) = matches_at doc"
    by (rule ext) (rule matches_clear)
  then show ?thesis by (simp add: promoted_def ancestors_clear)
qed

lemma markAsCorrect_marked:
  assumes "el < length doc"
  shows "marked (snd (markAsCorrect now (Some el) s doc)) = [promoted doc el]"
proof -
  let ?d1 = "clearPreviousHighlight doc"
  have t: "promoted doc el < length ?d1"
    using assms by (simp add: clear_length promoted_in_range)
  show ?thesis
    using t marked_after_add[OF marked_clear t]
    by (simp add: markAsCorrect_def Let_def findClosestAnswer_promoted promoted_clear)
qed

lemma querySelector_Some:
  "querySelector sel doc = Some i \<Longrightarrow> i < length doc \<and> sel (doc ! i)"
proof -
  assume "querySelector sel doc = Some i"
  then have "i \<in> set (querySelectorAll sel doc)"
    by (auto simp: querySelector_def split: list.splits)
  then show ?thesis by (simp add: in_querySelectorAll)
qed

lemma findByToken_in_range: "findByToken tok doc = Inr (Some i) \<Longrightarrow> i < length doc"
  by (auto simp: findByToken_def split: if_splits option.splits sum.splits
        dest: querySelector_Some)

lemma find_in_set: "find P xs = Some i \<Longrightarrow> i \<in> set xs \<and> P i"
  by (induction xs) (auto split: if_splits)

lemma candidates_in_range: "i \<in> set (candidates doc) \<Longrightarrow> i < length doc"
  by (auto simp: candidates_def in_querySelectorAll dest: in_set_takeD)

lemma allLeaves_in_range: "i \<in> set (allLeaves doc) \<Longrightarrow> i < length doc"
  by (auto simp: allLeaves_def in_querySelectorAll dest: in_set_takeD)

lemma findByText_in_range: "findByText text doc = Inr (Some i) \<Longrightarrow> i < length doc"
  by (auto simp: findByText_def split: if_splits sum.splits option.splits
        dest!: find_in_set dest: candidates_in_range allLeaves_in_range)

lemma locate_in_range: "fst (locate p doc) = Inr (Some i) \<Longrightarrow> i < length doc"
  by (auto simp: locate_def Let_def split: if_splits sum.splits
        dest: findByToken_in_range findByText_in_range)

lemma tryMark_falsy: "\<not> truthy (lastPayload s) \<Longrightarrow> tryMarkCorrectAnswer now s doc = (None, s, doc)"
  by (simp add: tryMarkCorrectAnswer_def)

lemma tryMark_throw:
  "truthy (lastPayload s) \<Longrightarrow> fst (locate (lastPayload s) doc) = Inl err \<Longrightarrow>
   tryMarkCorrectAnswer now s doc = (Some err, s, doc)"
  by (simp add: tryMarkCorrectAnswer_def)

lemma tryMark_none:
  "fst (locate (lastPayload s) doc) = Inr None \<Longrightarrow> tryMarkCorrectAnswer now s doc = (None, s, doc)"
  by (simp add: tryMarkCorrectAnswer_def)

lemma tryMark_found:
  "truthy (lastPayload s) \<Longrightarrow> fst (locate (lastPayload s) doc) = Inr (Some el) \<Longrightarrow>
   tryMarkCorrectAnswer now s doc =
     (None, (fst (markAsCorrect now (Some el) s doc))\<lparr>lastPayload := JNull\<rparr>,
      snd (markAsCorrect now (Some el) s doc))"
  by (simp add: tryMarkCorrectAnswer_def split: prod.splits)

lemma markAsCorrect_state:
  "fst (markAsCorrect now (Some el) s doc) = s\<lparr>lastMarkTimestamp := now\<rparr>"
  by (simp add: markAsCorrect_def Let_def)

lemma tryMark_cases:
  "tryMarkCorrectAnswer now s doc = (None, s, doc)
   \<or> (\<exists>err. tryMarkCorrectAnswer now s doc = (Some err, s, doc))
   \<or> (\<exists>el. truthy (lastPayload s) \<and> fst (locate (lastPayload s) doc) = Inr (Some el) \<and> el < length doc
        \<and> tryMarkCorrectAnswer now s doc =
            (None, s\<lparr>lastMarkTimestamp := now, lastPayload := JNull\<rparr>,
             snd (markAsCorrect now (Some el) s doc)))"
proof (cases "truthy (lastPayload s)")
  case False
  then show ?thesis by (simp add: tryMark_falsy)
next
  case True
  show ?thesis
  proof (cases "fst (locate (lastPayload s) doc)")
    case (Inl err)
    then show ?thesis using True by (simp add: tryMark_throw)
  next
    case (Inr found)
    show ?thesis
    proof (cases found)
      case None
      then show ?thesis using Inr by (simp add: tryMark_none)
    next
      case (Some el)
      then have "el < length doc" using Inr locate_in_range by blast
      then show ?thesis using True Inr Some
        by (simp add: tryMark_found markAsCorrect_state)
    qed
  qed
qed


lemma querySelector_hd:
  "querySelectorAll sel doc \<noteq> [] \<Longrightarrow> querySelector sel doc = Some (hd (querySelectorAll sel doc))"
  by (cases "querySelectorAll sel doc") (simp_all add: querySelector_def)

lemma text_ran_only_after_token_failed:
  "TextLookup \<in> set (snd (locate q doc)) \<Longrightarrow>
   findByToken (get_prop q ''correctToken'') doc = Inr None"
  by (cases "findByToken (get_prop q ''correctToken'') doc")
     (auto simp: locate_def Let_def findByToken_def split: if_splits)

text \<open>
  Claim C2. For a payload whose \<open>correctToken\<close> and \<open>correctText\<close> are both set, if some
  element of the document satisfies the token selector (one of \<open>data-token\<close>, \<open>data-id\<close>,
  \<open>data-answer-id\<close>, \<open>data-key\<close>, \<open>data-value\<close> equal to the token), the element located is
  the first such element in document order and the token lookup is the only lookup run.
  Whenever the text lookup ran, for any payload \<open>q\<close>, the token lookup had returned no
  element.
\<close>

theorem token_lookup_priority:
  assumes "truthy (get_prop p ''correctToken'')"
    and "truthy (get_prop p ''correctText'')"
    and "selector_string (get_prop p ''correctToken'') = Some t"
    and "querySelectorAll (token_selector t) doc \<noteq> []"
  shows "locate p doc = (Inr (Some (hd (querySelectorAll (token_selector t) doc))), [TokenLookup])
         \<and> TextLookup \<notin> set (snd (locate p doc))
         \<and> (TextLookup \<in> set (snd (locate q doc)) \<longrightarrow>
              findByToken (get_prop q ''correctToken'') doc = Inr None)"
proof -
  obtain str where "String_js (get_prop p ''correctToken'') = Inr str"
    using assms(3) by (auto simp: selector_string_def split: sum.splits)
  then have "findByToken (get_prop p ''correctToken'') doc
          = Inr (Some (hd (querySelectorAll (token_selector t) doc)))"
    using assms(1,3,4) by (simp add: findByToken_def querySelector_hd)
  then have "locate p doc = (Inr (Some (hd (querySelectorAll (token_selector t) doc))), [TokenLookup])"
    using assms(1) by (simp add: locate_def)
  then show ?thesis using text_ran_only_after_token_failed by simp
qed

lemma sample_page_token:
  "querySelectorAll (token_selector ''42'') token_page = [2]"
  "selector_string (JStr ''42'') = Some ''42''"
  "truthy (get_prop (JObj [(''correctText'', JStr ''Paris''), (''correctToken'', JStr ''42'')])
     ''correctToken'')"
  "truthy (get_prop (JObj [(''correctText'', JStr ''Paris''), (''correctToken'', JStr ''42'')])
     ''correctText'')"
  "get_prop (JObj [(''correctText'', JStr ''Paris''), (''correctToken'', JStr ''42'')])
     ''correctToken'' = JStr ''42''"
  "locate (JObj [(''correctText'', JStr ''Paris''), (''correctToken'', JStr ''43'')]) token_page
     = (Inr (Some 3), [TokenLookup, TextLookup])"
  "get_prop (JObj [(''correctText'', JStr ''Paris''), (''correctToken'', JStr ''43'')])
     ''correctToken'' = JStr ''43''"
  by code_simp+

theorem token_lookup_priority_witness:
  "truthy (get_prop (JObj [(''correctText'', JStr ''Paris''), (''correctToken'', JStr ''42'')])
     ''correctToken'')
   \<and> truthy (get_prop (JObj [(''correctText'', JStr ''Paris''), (''correctToken'', JStr ''42'')])
        ''correctText'')
   \<and> querySelectorAll (token_selector ''42'') token_page = [2]
   \<and> locate (JObj [(''correctText'', JStr ''Paris''), (''correctToken'', JStr ''42'')]) token_page
       = (Inr (Some 2), [TokenLookup])
   \<and> locate (JObj [(''correctText'', JStr ''Paris''), (''correctToken'', JStr ''43'')]) token_page
       = (Inr (Some 3), [TokenLookup, TextLookup])
   \<and> findByToken (JStr ''43'') token_page = Inr None"
proof -
  let ?p = "JObj [(''correctText'', JStr ''Paris''), (''correctToken'', JStr ''42'')]"
  let ?q = "JObj [(''correctText'', JStr ''Paris''), (''correctToken'', JStr ''43'')]"
  note f = sample_page_token
  have sel: "selector_string (get_prop ?p ''correctToken'') = Some ''42''"
    using f(2) by (simp only: f(5))
  have ne: "querySelectorAll (token_selector ''42'') token_page \<noteq> []"
    by (simp only: f(1)) simp
  note c = token_lookup_priority[OF f(3) f(4) sel ne, where q = ?q]
  have l: "locate ?p token_page = (Inr (Some 2), [TokenLookup])"
    using c by (simp only: f(1) list.sel)
  have "TextLookup \<in> set (snd (locate ?q token_page))"
    by (simp only: f(6)) simp
  then have "findByToken (get_prop ?q ''correctToken'') token_page = Inr None"
    using c by blast
  then have n: "findByToken (JStr ''43'') token_page = Inr None"
    by (simp only: f(7))
  show ?thesis using f(3) f(4) f(1) l f(6) n by (intro conjI)
qed

lemma find_exists: "i \<in> set xs \<Longrightarrow> P i \<Longrightarrow> \<exists>j. find P xs = Some j"
  by (induction xs) auto

text \<open>
  Claim C3. When some candidate's normalized text equals the normalized search text,
  \<open>findByText\<close> returns the first candidate with that exact text, whatever candidates
  merely containing the text come earlier in document order. The witness below is the
  page with the buttons \<open>Paris, France\<close> and \<open>Paris\<close>, in that order, and the payload
  \<open>{"correct_text": "Paris"}\<close>.
\<close>

theorem exact_before_substring:
  assumes "t \<noteq> []"
    and "c \<in> set (candidates doc)"
    and "elementText (doc ! c) = normalize_string t"
  shows "\<exists>i. findByText (JStr t) doc = Inr (Some i)
           \<and> find (\<lambda>i. elementText (doc ! i) = normalize_string t) (candidates doc) = Some i
           \<and> i \<in> set (candidates doc) \<and> elementText (doc ! i) = normalize_string t"
proof -
  obtain i where i: "find (\<lambda>i. elementText (doc ! i) = normalize_string t) (candidates doc) = Some i"
    using find_exists[OF assms(2), of "\<lambda>i. elementText (doc ! i) = normalize_string t"] assms(3)
    by blast
  then have "findByText (JStr t) doc = Inr (Some i)"
    using assms(1) by (simp add: findByText_def normalizeText_def)
  then show ?thesis using i find_in_set[OF i] by simp
qed

lemma sample_page_paris:
  "candidates paris_page = [2, 3]"
  "elementText (paris_page ! 2) = ''paris, france''"
  "elementText (paris_page ! 3) = ''paris''"
  "normalize_string ''Paris'' = ''paris''"
  "str_includes ''paris, france'' ''paris''"
  "extractCorrectInfo (JObj [(''correct_text'', JStr ''Paris'')])
     = Some \<lparr>correctText = Some ''Paris'', correctToken = None\<rparr>"
  "marked (snd (snd (onMessage 0
      \<lparr>from_window = True,
       data = postCorrectAnswer \<lparr>correctText = Some ''Paris'', correctToken = None\<rparr>\<rparr>
      initial_state paris_page))) = [3]"
  "''Paris'' \<noteq> []"
  by code_simp+

theorem exact_before_substring_witness:
  "candidates paris_page = [2, 3]
   \<and> elementText (paris_page ! 2) = ''paris, france''
   \<and> elementText (paris_page ! 3) = ''paris''
   \<and> normalize_string ''Paris'' = ''paris''
   \<and> str_includes ''paris, france'' ''paris''
   \<and> findByText (JStr ''Paris'') paris_page = Inr (Some 3)
   \<and> extractCorrectInfo (JObj [(''correct_text'', JStr ''Paris'')])
        = Some \<lparr>correctText = Some ''Paris'', correctToken = None\<rparr>
   \<and> marked (snd (snd (onMessage 0
        \<lparr>from_window = True,
         data = postCorrectAnswer \<lparr>correctText = Some ''Paris'', correctToken = None\<rparr>\<rparr>
        initial_state paris_page))) = [3]"
proof -
  note f = sample_page_paris
  have c: "3 \<in> set (candidates paris_page)" by (simp only: f(1)) simp
  have e: "elementText (paris_page ! 3) = normalize_string ''Paris''"
    by (simp only: f(3) f(4))
  obtain i where i: "findByText (JStr ''Paris'') paris_page = Inr (Some i)"
    "find (\<lambda>i. elementText (paris_page ! i) = normalize_string ''Paris'') (candidates paris_page)
       = Some i"
    using exact_before_substring[OF f(8) c e] by blast
  have "find (\<lambda>i. elementText (paris_page ! i) = normalize_string ''Paris'') (candidates paris_page)
       = Some 3"
    by (simp add: f(1) f(2) f(3) f(4))
  then have "i = 3" using i(2) by simp
  then have r: "findByText (JStr ''Paris'') paris_page = Inr (Some 3)" using i(1) by simp
  show ?thesis using f(1) f(2) f(3) f(4) f(5) r f(6) f(7) by (intro conjI)
qed

text \<open>
  Claim C5. When the attempt locates no element, \<open>tryMarkCorrectAnswer\<close> leaves the state
  (the pending payload with it) and the document unchanged and raises nothing. When it
  locates an element, the pending payload becomes \<open>null\<close>, the time is recorded and the
  marker is on the promoted element. And the pending payload changes only in that case.
\<close>

theorem payload_cleared_on_success_only:
  assumes "tryMarkCorrectAnswer now s doc = (r, s', doc')"
  shows "(fst (locate (lastPayload s) doc) = Inr None \<longrightarrow> r = None \<and> s' = s \<and> doc' = doc)
       \<and> (truthy (lastPayload s) \<and> fst (locate (lastPayload s) doc) = Inr (Some el) \<longrightarrow>
            r = None \<and> lastPayload s' = JNull \<and> lastMarkTimestamp s' = now
            \<and> marked doc' = [promoted doc el])
       \<and> (lastPayload s' \<noteq> lastPayload s \<longrightarrow>
            lastPayload s' = JNull
            \<and> (\<exists>e. fst (locate (lastPayload s) doc) = Inr (Some e) \<and> marked doc' = [promoted doc e]))"
proof -
  have unresolved: "r = None \<and> s' = s \<and> doc' = doc"
    if "fst (locate (lastPayload s) doc) = Inr None"
    using that assms by (simp add: tryMark_none)
  have resolved: "r = None \<and> lastPayload s' = JNull \<and> lastMarkTimestamp s' = now
            \<and> marked doc' = [promoted doc el]"
    if a: "truthy (lastPayload s) \<and> fst (locate (lastPayload s) doc) = Inr (Some el)"
  proof -
    have "el < length doc" using a locate_in_range by blast
    then show ?thesis
      using assms a by (auto simp: tryMark_found markAsCorrect_state markAsCorrect_marked)
  qed
  have only: "lastPayload s' = JNull
            \<and> (\<exists>e. fst (locate (lastPayload s) doc) = Inr (Some e) \<and> marked doc' = [promoted doc e])"
    if ch: "lastPayload s' \<noteq> lastPayload s"
  proof -
    consider (same) "tryMarkCorrectAnswer now s doc = (None, s, doc)"
      | (thrown) err where "tryMarkCorrectAnswer now s doc = (Some err, s, doc)"
      | (found) e where "fst (locate (lastPayload s) doc) = Inr (Some e)" "e < length doc"
          "tryMarkCorrectAnswer now s doc =
              (None, s\<lparr>lastMarkTimestamp := now, lastPayload := JNull\<rparr>,
               snd (markAsCorrect now (Some e) s doc))"
      using tryMark_cases[of now s doc] by blast
    then show ?thesis
    proof cases
      case same
      then show ?thesis using assms ch by simp
    next
      case thrown
      then show ?thesis using assms ch by simp
    next
      case found
      then show ?thesis using assms markAsCorrect_marked[OF found(2)] by auto
    qed
  qed
  show ?thesis using unresolved resolved only by blast
qed

lemma sample_page_retry:
  "truthy (lastPayload (initial_state\<lparr>lastPayload := text_descriptor ''Berlin''\<rparr>))"
  "fst (locate (lastPayload (initial_state\<lparr>lastPayload := text_descriptor ''Berlin''\<rparr>))
          capitals_page) = Inr None"
  "truthy (lastPayload (initial_state\<lparr>lastPayload := text_descriptor ''Paris''\<rparr>))"
  "fst (locate (lastPayload (initial_state\<lparr>lastPayload := text_descriptor ''Paris''\<rparr>))
          capitals_page) = Inr (Some 3)"
  "promoted capitals_page 3 = 3"
  "lastPayload (initial_state\<lparr>lastPayload := text_descriptor ''Paris''\<rparr>) \<noteq> JNull"
  by code_simp+

theorem payload_cleared_on_success_only_witness:
  "fst (locate (lastPayload (initial_state\<lparr>lastPayload := text_descriptor ''Berlin''\<rparr>))
          capitals_page) = Inr None
   \<and> tryMarkCorrectAnswer 5 (initial_state\<lparr>lastPayload := text_descriptor ''Berlin''\<rparr>)
        capitals_page
       = (None, initial_state\<lparr>lastPayload := text_descriptor ''Berlin''\<rparr>, capitals_page)
   \<and> truthy (lastPayload (initial_state\<lparr>lastPayload := text_descriptor ''Paris''\<rparr>))
   \<and> fst (locate (lastPayload (initial_state\<lparr>lastPayload := text_descriptor ''Paris''\<rparr>))
          capitals_page) = Inr (Some 3)
   \<and> lastPayload (fst (snd (tryMarkCorrectAnswer 5
        (initial_state\<lparr>lastPayload := text_descriptor ''Paris''\<rparr>) capitals_page))) = JNull
   \<and> marked (snd (snd (tryMarkCorrectAnswer 5
        (initial_state\<lparr>lastPayload := text_descriptor ''Paris''\<rparr>) capitals_page))) = [3]"
proof -
  let ?b = "initial_state\<lparr>lastPayload := text_descriptor ''Berlin''\<rparr>"
  let ?s = "initial_state\<lparr>lastPayload := text_descriptor ''Paris''\<rparr>"
  note f = sample_page_retry
  obtain rb sb db where tb: "tryMarkCorrectAnswer 5 ?b capitals_page = (rb, sb, db)"
    by (cases "tryMarkCorrectAnswer 5 ?b capitals_page") auto
  have "rb = None \<and> sb = ?b \<and> db = capitals_page"
    using payload_cleared_on_success_only[OF tb] f(2) by blast
  then have u: "tryMarkCorrectAnswer 5 ?b capitals_page = (None, ?b, capitals_page)"
    using tb by simp
  obtain r s' d' where t: "tryMarkCorrectAnswer 5 ?s capitals_page = (r, s', d')"
    by (cases "tryMarkCorrectAnswer 5 ?s capitals_page") auto
  have "lastPayload s' = JNull \<and> marked d' = [promoted capitals_page 3]"
    using payload_cleared_on_success_only[OF t, of 3] f(3) f(4) by blast
  then have "lastPayload s' = JNull \<and> marked d' = [3]"
    by (simp only: f(5))
  then have c: "lastPayload (fst (snd (tryMarkCorrectAnswer 5 ?s capitals_page))) = JNull"
    and m: "marked (snd (snd (tryMarkCorrectAnswer 5 ?s capitals_page))) = [3]"
    by (simp_all only: t fst_conv snd_conv)
  show ?thesis using f(2) u f(3) f(4) c m by (intro conjI)
qed

text \<open>
  Claim C8, as the code has it. \<open>findClosestAnswer\<close> returns the nearest node that satisfies
  the answer selectors among six nodes, the element itself and five generations of
  ancestors (the loop runs \<open>MAX_PARENT_DEPTH\<close> times and its first round is the element),
  and the element itself when none of the six does; the element that
  \<open>tryMarkCorrectAnswer\<close> highlights is that node.
\<close>

theorem ancestor_promotion:
  "findClosestAnswer doc el = promoted doc el
   \<and> (truthy (lastPayload s) \<and> fst (locate (lastPayload s) doc) = Inr (Some el) \<longrightarrow>
        marked (snd (snd (tryMarkCorrectAnswer now s doc))) = [promoted doc el])"
proof (intro conjI impI)
  show "findClosestAnswer doc el = promoted doc el" by (rule findClosestAnswer_promoted)
next
  assume a: "truthy (lastPayload s) \<and> fst (locate (lastPayload s) doc) = Inr (Some el)"
  then have "el < length doc" using locate_in_range by blast
  then show "marked (snd (snd (tryMarkCorrectAnswer now s doc))) = [promoted doc el]"
    using a by (simp add: tryMark_found markAsCorrect_marked)
qed

lemma sample_page_nested:
  "truthy (lastPayload (initial_state\<lparr>lastPayload := JObj [(''correctToken'', JStr ''7'')]\<rparr>))"
  "fst (locate (lastPayload (initial_state\<lparr>lastPayload := JObj [(''correctToken'', JStr ''7'')]\<rparr>))
          nested_page) = Inr (Some 4)"
  "promoted nested_page 4 = 2"
  "promoted plain_page 4 = 4"
  "inclusive_ancestors deep_page 6 (Some 8) = [8, 7, 6, 5, 4, 3]"
  "matches_at deep_page 2"
  "promoted deep_page 8 = 8"
  by code_simp+

theorem ancestor_promotion_witness:
  "truthy (lastPayload (initial_state\<lparr>lastPayload := JObj [(''correctToken'', JStr ''7'')]\<rparr>))
   \<and> fst (locate (lastPayload (initial_state\<lparr>lastPayload := JObj [(''correctToken'', JStr ''7'')]\<rparr>))
          nested_page) = Inr (Some 4)
   \<and> findClosestAnswer nested_page 4 = 2
   \<and> marked (snd (snd (tryMarkCorrectAnswer 9
        (initial_state\<lparr>lastPayload := JObj [(''correctToken'', JStr ''7'')]\<rparr>) nested_page))) = [2]
   \<and> findClosestAnswer plain_page 4 = 4
   \<and> inclusive_ancestors deep_page 6 (Some 8) = [8, 7, 6, 5, 4, 3]
   \<and> matches_at deep_page 2
   \<and> findClosestAnswer deep_page 8 = 8"
proof -
  let ?s = "initial_state\<lparr>lastPayload := JObj [(''correctToken'', JStr ''7'')]\<rparr>"
  note f = sample_page_nested
  have m: "marked (snd (snd (tryMarkCorrectAnswer 9 ?s nested_page))) = [promoted nested_page 4]"
    using ancestor_promotion[of nested_page 4 ?s 9] f(1) f(2) by blast
  have m': "marked (snd (snd (tryMarkCorrectAnswer 9 ?s nested_page))) = [2]"
    using m by (simp only: f(3))
  have c1: "findClosestAnswer nested_page 4 = 2"
    using ancestor_promotion[of nested_page 4 ?s 9] by (simp only: f(3))
  have c2: "findClosestAnswer plain_page 4 = 4"
    using ancestor_promotion[of plain_page 4 ?s 9] by (simp only: f(4))
  have c3: "findClosestAnswer deep_page 8 = 8"
    using ancestor_promotion[of deep_page 8 ?s 9] by (simp only: f(7))
  show ?thesis using f(1) f(2) c1 m' c2 f(5) f(6) c3 by (intro conjI)
qed

text \<open>
  Claim C8 as stated fails: on \<open>deep_page\<close> the list item is the sixth ancestor of the
  element that carries the token; a walk through six ancestor generations promotes to it,
  \<open>findClosestAnswer\<close> stops one generation short and keeps the element.
\<close>

theorem six_generations_counterexample:
  "inclusive_ancestors deep_page 7 (Some 8) = [8, 7, 6, 5, 4, 3, 2]
   \<and> matches_at deep_page 2
   \<and> promoted_through_six_generations deep_page 8 = 2
   \<and> findClosestAnswer deep_page 8 = 8"
  by (intro conjI) code_simp+

section \<open>Properties of the relay and of the state\<close>








lemma onMessage_accepted:
  "accepted ev \<Longrightarrow>
   onMessage now ev s doc =
     tryMarkCorrectAnswer now (s\<lparr>lastPayload := get_prop (data ev) ''payload''\<rparr>) doc"
  by (simp add: accepted_def onMessage_def Let_def)






text \<open>
  Claim C6. Of two descriptors delivered one after the other, the second replaces the
  first: what its delivery does is what \<open>tryMarkCorrectAnswer\<close> does with the second as the
  pending payload, whatever payload \<open>q\<close> was pending before; afterwards the pending payload is
  the second descriptor or \<open>null\<close>; and when the first was not resolved, the outcome is the
  one the second descriptor would have had alone.
\<close>

theorem latest_descriptor_replaces:
  assumes "accepted ev1" and "accepted ev2"
    and "onMessage t1 ev1 s doc = (r1, s1, d1)"
    and "onMessage t2 ev2 s1 d1 = (r2, s2, d2)"
  shows "onMessage t2 ev2 (s1\<lparr>lastPayload := q\<rparr>) d1 = (r2, s2, d2)
       \<and> tryMarkCorrectAnswer t2 (s1\<lparr>lastPayload := get_prop (data ev2) ''payload''\<rparr>) d1
           = (r2, s2, d2)
       \<and> (lastPayload s2 = get_prop (data ev2) ''payload'' \<or> lastPayload s2 = JNull)
       \<and> (s1 = s\<lparr>lastPayload := get_prop (data ev1) ''payload''\<rparr> \<and> d1 = doc \<longrightarrow>
            onMessage t2 ev2 s doc = (r2, s2, d2))"
proof -
  let ?p2 = "get_prop (data ev2) ''payload''"
  have t: "tryMarkCorrectAnswer t2 (s1\<lparr>lastPayload := ?p2\<rparr>) d1 = (r2, s2, d2)"
    using assms(2,4) by (simp add: onMessage_accepted)
  have any: "onMessage t2 ev2 (s1\<lparr>lastPayload := q\<rparr>) d1 = (r2, s2, d2)"
    using assms(2) t by (simp add: onMessage_accepted)
  have pend: "lastPayload s2 = ?p2 \<or> lastPayload s2 = JNull"
    using tryMark_cases[of t2 "s1\<lparr>lastPayload := ?p2\<rparr>" d1] t by auto
  have first: "onMessage t2 ev2 s doc = (r2, s2, d2)"
    if "s1 = s\<lparr>lastPayload := get_prop (data ev1) ''payload''\<rparr> \<and> d1 = doc"
    using that assms(2) t by (simp add: onMessage_accepted)
  show ?thesis using t any pend first by blast
qed

lemma tryMark_no_throw:
  "fst (locate (lastPayload s) doc) = Inr found \<Longrightarrow> fst (tryMarkCorrectAnswer now s doc) = None"
  by (cases found) (simp_all add: tryMarkCorrectAnswer_def split: prod.splits)

lemma no_throw_on_string_text:
  assumes "\<not> truthy (get_prop p ''correctToken'') \<or> String_js (get_prop p ''correctToken'') = Inr u"
    and "\<not> truthy (get_prop p ''correctText'') \<or> get_prop p ''correctText'' = JStr t"
  shows "\<exists>found. fst (locate p doc) = Inr found"
proof -
  have "\<exists>byToken. findByToken (get_prop p ''correctToken'') doc = Inr byToken"
    using assms(1)
    by (cases "selector_string (get_prop p ''correctToken'')") (auto simp: findByToken_def)
  then obtain byToken where bt: "findByToken (get_prop p ''correctToken'') doc = Inr byToken"
    by blast
  have "\<exists>found. findByText (get_prop p ''correctText'') doc = Inr found"
    if "truthy (get_prop p ''correctText'')"
    using that assms(2)
    by (auto simp: findByText_def normalizeText_def split: option.splits)
  then show ?thesis
    using bt by (auto simp: locate_def Let_def)
qed

lemma no_fields_no_element:
  "\<not> truthy (get_prop p ''correctToken'') \<Longrightarrow> \<not> truthy (get_prop p ''correctText'') \<Longrightarrow>
   fst (locate p doc) = Inr None"
  by (simp add: locate_def)

lemma token_coerced:
  "truthy tok \<Longrightarrow> String_js tok = Inr u \<Longrightarrow> u \<noteq> [] \<Longrightarrow>
   findByToken tok doc = findByToken (JStr u) doc"
  by (simp add: findByToken_def selector_string_def)

text \<open>
  Claim C10, as the code has it. A message from the page's own window with both tags is
  stored as the pending payload whatever its shape. When the payload is falsy, or has no
  truthy \<open>correctToken\<close> and no truthy \<open>correctText\<close> (every value that is not an object is
  such), nothing is raised, nothing is highlighted and the document is unchanged. Nothing is
  raised either whenever \<open>correctToken\<close> is falsy or has a string form \<open>u\<close> (\<open>String\<close> does
  not throw on it) and \<open>correctText\<close> is falsy or a string. A truthy token \<open>tk\<close> that is not a
  string is looked up through its string form, like the string itself.
\<close>

theorem malformed_payload_no_highlight:
  assumes "accepted ev" and "get_prop (data ev) ''payload'' = p"
  shows "((\<not> truthy p \<or> (\<not> truthy (get_prop p ''correctToken'') \<and> \<not> truthy (get_prop p ''correctText'')))
            \<longrightarrow> onMessage now ev s doc = (None, s\<lparr>lastPayload := p\<rparr>, doc))
       \<and> ((\<not> truthy (get_prop p ''correctToken'') \<or> String_js (get_prop p ''correctToken'') = Inr u)
          \<and> (\<not> truthy (get_prop p ''correctText'') \<or> get_prop p ''correctText'' = JStr t)
            \<longrightarrow> fst (onMessage now ev s doc) = None)
       \<and> (truthy tk \<and> String_js tk = Inr v \<and> v \<noteq> [] \<longrightarrow>
            findByToken tk doc = findByToken (JStr v) doc)"
proof -
  have om: "onMessage now ev s doc = tryMarkCorrectAnswer now (s\<lparr>lastPayload := p\<rparr>) doc"
    using assms by (simp add: onMessage_accepted)
  have a: "onMessage now ev s doc = (None, s\<lparr>lastPayload := p\<rparr>, doc)"
    if "\<not> truthy p \<or> (\<not> truthy (get_prop p ''correctToken'') \<and> \<not> truthy (get_prop p ''correctText''))"
    using that om by (auto simp: tryMark_falsy tryMark_none no_fields_no_element)
  have b: "fst (onMessage now ev s doc) = None"
    if h: "(\<not> truthy (get_prop p ''correctToken'') \<or> String_js (get_prop p ''correctToken'') = Inr u)
          \<and> (\<not> truthy (get_prop p ''correctText'') \<or> get_prop p ''correctText'' = JStr t)"
  proof -
    obtain found where "fst (locate p doc) = Inr found"
      using no_throw_on_string_text[of p u t doc] h by blast
    then show ?thesis
      using om tryMark_no_throw[of "s\<lparr>lastPayload := p\<rparr>" doc found now] by simp
  qed
  show ?thesis using a b token_coerced by blast
qed





lemma capitals_two_messages:
  "accepted (envelope (text_descriptor ''Berlin''))"
  "accepted (envelope (text_descriptor ''Madrid''))"
  "onMessage 0 (envelope (text_descriptor ''Berlin'')) initial_state capitals_page
     = (None, initial_state\<lparr>lastPayload := text_descriptor ''Berlin''\<rparr>, capitals_page)"
  "onMessage 1 (envelope (text_descriptor ''Madrid''))
       (initial_state\<lparr>lastPayload := text_descriptor ''Berlin''\<rparr>) capitals_page
     = (None, initial_state\<lparr>lastPayload := text_descriptor ''Madrid''\<rparr>, capitals_page)"
  "get_prop (data (envelope (text_descriptor ''Berlin''))) ''payload'' = text_descriptor ''Berlin''"
  by code_simp+

theorem latest_descriptor_replaces_witness:
  "accepted (envelope (text_descriptor ''Berlin''))
   \<and> accepted (envelope (text_descriptor ''Madrid''))
   \<and> onMessage 0 (envelope (text_descriptor ''Berlin'')) initial_state capitals_page
       = (None, initial_state\<lparr>lastPayload := text_descriptor ''Berlin''\<rparr>, capitals_page)
   \<and> onMessage 1 (envelope (text_descriptor ''Madrid''))
         (initial_state\<lparr>lastPayload := text_descriptor ''Berlin''\<rparr>) capitals_page
       = (None, initial_state\<lparr>lastPayload := text_descriptor ''Madrid''\<rparr>, capitals_page)
   \<and> onMessage 1 (envelope (text_descriptor ''Madrid'')) initial_state capitals_page
       = (None, initial_state\<lparr>lastPayload := text_descriptor ''Madrid''\<rparr>, capitals_page)"
proof -
  note f = capitals_two_messages
  have "initial_state\<lparr>lastPayload := text_descriptor ''Berlin''\<rparr>
          = initial_state\<lparr>lastPayload := get_prop (data (envelope (text_descriptor ''Berlin''))) ''payload''\<rparr>
        \<and> capitals_page = capitals_page"
    by (simp only: f(5) simp_thms)
  then have "onMessage 1 (envelope (text_descriptor ''Madrid'')) initial_state capitals_page
       = (None, initial_state\<lparr>lastPayload := text_descriptor ''Madrid''\<rparr>, capitals_page)"
    using latest_descriptor_replaces[OF f(1) f(2) f(3) f(4), of JNull] by blast
  then show ?thesis using f(1) f(2) f(3) f(4) by (intro conjI)
qed

lemma malformed_samples:
  "accepted (envelope (JNum 7))"
  "get_prop (data (envelope (JNum 7))) ''payload'' = JNum 7"
  "\<not> truthy (get_prop (JNum 7) ''correctToken'')"
  "\<not> truthy (get_prop (JNum 7) ''correctText'')"
  "accepted (envelope (JObj [(''correctText'', JStr ''Paris''), (''correctToken'', JNum 42)]))"
  "get_prop (data (envelope (JObj [(''correctText'', JStr ''Paris''), (''correctToken'', JNum 42)])))
      ''payload'' = JObj [(''correctText'', JStr ''Paris''), (''correctToken'', JNum 42)]"
  "get_prop (JObj [(''correctText'', JStr ''Paris''), (''correctToken'', JNum 42)]) ''correctText''
      = JStr ''Paris''"
  "truthy (JNum 42)"
  "String_js (JNum 42) = Inr ''42''"
  "''42'' \<noteq> []"
  "String_js (get_prop (JObj [(''correctText'', JStr ''Paris''), (''correctToken'', JNum 42)])
      ''correctToken'') = Inr ''42''"
  by code_simp+

theorem malformed_payload_no_highlight_witness:
  "accepted (envelope (JNum 7))
   \<and> \<not> truthy (get_prop (JNum 7) ''correctToken'')
   \<and> \<not> truthy (get_prop (JNum 7) ''correctText'')
   \<and> onMessage 3 (envelope (JNum 7)) initial_state capitals_page
       = (None, initial_state\<lparr>lastPayload := JNum 7\<rparr>, capitals_page)
   \<and> accepted (envelope (JObj [(''correctText'', JStr ''Paris''), (''correctToken'', JNum 42)]))
   \<and> String_js (get_prop (JObj [(''correctText'', JStr ''Paris''), (''correctToken'', JNum 42)])
        ''correctToken'') = Inr ''42''
   \<and> get_prop (JObj [(''correctText'', JStr ''Paris''), (''correctToken'', JNum 42)]) ''correctText''
        = JStr ''Paris''
   \<and> fst (onMessage 3 (envelope (JObj [(''correctText'', JStr ''Paris''), (''correctToken'', JNum 42)]))
          initial_state capitals_page) = None
   \<and> truthy (JNum 42)
   \<and> String_js (JNum 42) = Inr ''42''
   \<and> findByToken (JNum 42) capitals_page = findByToken (JStr ''42'') capitals_page"
proof -
  note f = malformed_samples
  have a: "onMessage 3 (envelope (JNum 7)) initial_state capitals_page
       = (None, initial_state\<lparr>lastPayload := JNum 7\<rparr>, capitals_page)"
    using malformed_payload_no_highlight[OF f(1) f(2), where now = 3 and s = initial_state and doc = capitals_page] f(3) f(4)
    by blast
  have b: "fst (onMessage 3 (envelope (JObj [(''correctText'', JStr ''Paris''), (''correctToken'', JNum 42)]))
          initial_state capitals_page) = None"
    using malformed_payload_no_highlight[OF f(5) f(6), where u = "''42''" and t = "''Paris''" and now = 3 and s = initial_state and doc = capitals_page] f(7) f(11)
    by blast
  have c: "findByToken (JNum 42) capitals_page = findByToken (JStr ''42'') capitals_page"
    using malformed_payload_no_highlight[OF f(1) f(2), where tk = "JNum 42" and v = "''42''" and doc = capitals_page]
      f(8) f(9) f(10) by blast
  show ?thesis using f(1) f(3) f(4) a f(5) f(11) f(7) b f(8) f(9) c by (intro conjI)
qed

text \<open>
  Claim C10 as stated fails: a number under \<open>correctToken\<close> is coerced to a string and
  highlights the element that carries it; a truthy \<open>correctText\<close> that is not a string makes
  \<open>normalizeText\<close> throw a TypeError out of the listener; and so does a \<open>correctToken\<close> on
  which \<open>String\<close> throws.
\<close>

theorem malformed_payload_counterexample:
  "marked token_page = []
   \<and> marked (snd (snd (onMessage 3 (envelope (JObj [(''correctToken'', JNum 42)])) initial_state
        token_page))) = [2]
   \<and> onMessage 3 (envelope (JObj [(''correctText'', JNum 5)])) initial_state capitals_page
     = (Some TypeError, initial_state\<lparr>lastPayload := JObj [(''correctText'', JNum 5)]\<rparr>,
        capitals_page)
   \<and> onMessage 3 (envelope (JObj [(''correctToken'', JObj [(''toString'', JNum 1)])]))
        initial_state capitals_page
     = (Some TypeError,
        initial_state\<lparr>lastPayload := JObj [(''correctToken'', JObj [(''toString'', JNum 1)])]\<rparr>,
        capitals_page)"
  by (intro conjI) code_simp+

end
